theory Spec2Isabelle
  imports Complex_Main "HOL-Library.Word"
begin

section \<open>Machine numbers\<close>

text \<open>
  The C++ type \<^verbatim>\<open>int\<close> is a 32-bit two's complement word, read through \<open>sint\<close>.
  \<^verbatim>\<open>size_t\<close> values are container sizes and are kept as natural numbers.
\<close>

type_synonym cint = "32 word"

text \<open>
  A \<^verbatim>\<open>double\<close> is a finite real, the negative zero, an infinity (\<open>True\<close> is the
  negative one) or a NaN. \<open>Finite 0\<close> is the positive zero.
\<close>

datatype double = Finite real | NegZero | Infinity bool | NaN

fun valof :: "double \<Rightarrow> real" where
  "valof (Finite r) = r"
| "valof NegZero = 0"
| "valof (Infinity s) = 0"
| "valof NaN = 0"

fun is_finite :: "double \<Rightarrow> bool" where
  "is_finite (Finite r) = True"
| "is_finite NegZero = True"
| "is_finite (Infinity s) = False"
| "is_finite NaN = False"

fun signbit :: "double \<Rightarrow> bool" where
  "signbit (Finite r) = (r < 0)"
| "signbit NegZero = True"
| "signbit (Infinity s) = s"
| "signbit NaN = False"


text \<open>
  \<^verbatim>\<open>static_cast<int>(d)\<close> discards the fractional part; the behaviour is undefined
  when the truncated value is not an \<^verbatim>\<open>int\<close> (also for infinities and NaN), which is
  \<open>None\<close> here.
\<close>

definition truncation :: "real \<Rightarrow> int" where
  "truncation r = (if r < 0 then \<lceil>r\<rceil> else \<lfloor>r\<rfloor>)"

fun double_to_int :: "double \<Rightarrow> cint option" where
  "double_to_int (Finite r) =
     (if - (2 ^ 31) \<le> truncation r \<and> truncation r < 2 ^ 31 then Some (word_of_int (truncation r))
      else None)"
| "double_to_int NegZero = Some 0"
| "double_to_int (Infinity s) = None"
| "double_to_int NaN = None"

text \<open>Every \<^verbatim>\<open>int\<close> is a double: the conversion is exact.\<close>

definition int_to_double :: "cint \<Rightarrow> double" where
  "int_to_double i = Finite (real_of_int (sint i))"

subsection \<open>Rounding to the nearest double\<close>

definition round_half_even :: "real \<Rightarrow> int" where
  "round_half_even q =
     (let f = \<lfloor>q\<rfloor> in
      if q - of_int f < 1 / 2 then f
      else if 1 / 2 < q - of_int f then f + 1
      else if even f then f else f + 1)"

text \<open>
  The magnitude \<open>q > 0\<close> rounded to 53 significant bits, with the exponent of the last
  place no smaller than \<open>-1074\<close> (the subnormal range); ties go to the even significand.
\<close>

definition round_magnitude :: "real \<Rightarrow> real" where
  "round_magnitude q =
     (if q \<le> 0 then 0
      else let e = max (\<lfloor>log 2 q\<rfloor> - 52) (- 1074)
           in of_int (round_half_even (q / 2 powr (of_int e))) * 2 powr (of_int e))"

definition signed_zero :: "bool \<Rightarrow> double" where
  "signed_zero s = (if s then NegZero else Finite 0)"

definition round_to_double :: "bool \<Rightarrow> real \<Rightarrow> double" where
  "round_to_double s q =
     (let r = round_magnitude q in
      if 2 ^ 1024 \<le> r then Infinity s
      else if r = 0 then signed_zero s
      else Finite (if s then - r else r))"

text \<open>The conversion of a \<^verbatim>\<open>size_t\<close> rounds to the nearest double.\<close>

definition size_to_double :: "nat \<Rightarrow> double" where
  "size_to_double n = round_to_double False (real n)"

text \<open>The operators \<^verbatim>\<open>a * b\<close> and \<^verbatim>\<open>a / b\<close> of IEEE-754 binary64, rounding to nearest.\<close>

definition double_mul :: "double \<Rightarrow> double \<Rightarrow> double" where
  "double_mul a b =
     (if a = NaN \<or> b = NaN then NaN
      else if is_finite a \<and> is_finite b
        then round_to_double (signbit a \<noteq> signbit b) (\<bar>valof a\<bar> * \<bar>valof b\<bar>)
      else if (is_finite a \<and> valof a = 0) \<or> (is_finite b \<and> valof b = 0) then NaN
      else Infinity (signbit a \<noteq> signbit b))"



section \<open>Runtime values\<close>

text \<open>
  A \<^verbatim>\<open>ValuePtr\<close> is a shared pointer: it is modelled by the address of the object it
  shares. The objects live in a heap; two pointers alias when they are the same address.
  A \<^verbatim>\<open>Function\<close> holds its name and a native callable, kept as an opaque number.
\<close>

type_synonym addr = nat

datatype val =
    Number double
  | String string
  | List "addr list"
  | Function string nat

record heap =
  cells :: "addr \<Rightarrow> val"
  next_addr :: addr

definition make_shared :: "val \<Rightarrow> heap \<Rightarrow> addr \<times> heap" where
  "make_shared v h =
     (next_addr h, h\<lparr>cells := (cells h)(next_addr h := v), next_addr := Suc (next_addr h)\<rparr>)"

text \<open>
  The source throws \<^verbatim>\<open>std::runtime_error\<close> with a message. The constructors below
  classify each throw by the error kinds of the specification; the argument is the
  message. \<open>UndefinedBehaviour\<close> is not an exception: it marks an execution that the
  language leaves undefined.
\<close>

datatype error =
    TypeMismatch string
  | UnsupportedOperation string
  | DivisionByZero string
  | IndexOutOfRange string
  | UndefinedVariable string
  | ArityOrType string
  | ParseError string
  | UndefinedBehaviour string

fun isNumber :: "val \<Rightarrow> bool" where
  "isNumber (Number d) = True"
| "isNumber v = False"

fun isString :: "val \<Rightarrow> bool" where
  "isString (String s) = True"
| "isString v = False"

fun isList :: "val \<Rightarrow> bool" where
  "isList (List es) = True"
| "isList v = False"


text \<open>
  The narrowing conversions copy-construct a new object from the receiver
  (\<^verbatim>\<open>std::make_shared<List>(*this)\<close>); the base class throws. The result is the new
  object, which no other pointer shares.
\<close>

fun asNumber :: "val \<Rightarrow> error + double" where
  "asNumber (Number d) = Inr d"
| "asNumber v = Inl (TypeMismatch ''Cannot convert value to Number'')"

fun asString :: "val \<Rightarrow> error + string" where
  "asString (String s) = Inr s"
| "asString v = Inl (TypeMismatch ''Cannot convert value to String'')"

fun asList :: "val \<Rightarrow> error + addr list" where
  "asList (List es) = Inr es"
| "asList v = Inl (TypeMismatch ''Cannot convert value to List'')"

section \<open>List\<close>

definition getItem :: "addr list \<Rightarrow> cint \<Rightarrow> error + addr" where
  "getItem elements index =
     (let index = (if sint index < 0 then index + word_of_nat (length elements) else index) in
      if sint index < 0 \<or> length elements \<le> unat index
      then Inl (IndexOutOfRange ''List index out of range'')
      else Inr (elements ! unat index))"

definition setItem :: "addr list \<Rightarrow> cint \<Rightarrow> addr \<Rightarrow> error + addr list" where
  "setItem elements index v =
     (let index = (if sint index < 0 then index + word_of_nat (length elements) else index) in
      if sint index < 0 \<or> length elements \<le> unat index
      then Inl (IndexOutOfRange ''List index out of range'')
      else Inr (elements[unat index := v]))"

definition List_length :: "addr list \<Rightarrow> cint" where
  "List_length elements = word_of_nat (length elements)"

text \<open>
  \<^verbatim>\<open>List::append\<close> is \<^verbatim>\<open>push_back\<close> on the object the pointer \<open>p\<close> shares: it
  changes that object in place.
\<close>

definition List_append :: "addr \<Rightarrow> addr \<Rightarrow> heap \<Rightarrow> heap" where
  "List_append p v h =
     (case cells h p of
        List elements \<Rightarrow> h\<lparr>cells := (cells h)(p := List (elements @ [v]))\<rparr>
      | _ \<Rightarrow> h)"

section \<open>Number and String arithmetic\<close>

text \<open>
  The loop \<^verbatim>\<open>for (int i = 0; i < count; ++i) result += str;\<close> of both
  \<^verbatim>\<open>multedBy\<close> methods.
\<close>

function repeat_loop :: "string \<Rightarrow> cint \<Rightarrow> cint \<Rightarrow> string \<Rightarrow> string" where
  "repeat_loop str count i result =
     (if sint i < sint count then repeat_loop str count (i + 1) (result @ str) else result)"
  by pat_completeness auto
termination
proof (relation "measure (\<lambda>(str, count, i, result). nat (sint count - sint i))")
  show "wf (measure (\<lambda>(str, count, i, result). nat (sint count - sint i)))" by simp
next
  fix str :: string and count i :: cint and result :: string
  assume a: "sint i < sint count"
  have hi: "sint i + 1 < 2 ^ 31" using a sint_lt [of count] by simp
  have lo: "- (2 ^ 31) \<le> sint i" using sint_ge [of i] by simp
  have "i + 1 = word_of_int (sint i + 1)" by simp
  then have "sint (i + 1) = (sint i + 1 + 2 ^ 31) mod 2 ^ 32 - 2 ^ 31"
    by (simp only: int_word_sint) simp
  also have "\<dots> = sint i + 1"
    using lo hi by (simp add: mod_pos_pos_trivial)
  finally have "sint (i + 1) = sint i + 1" .
  then show "((str, count, i + 1, result @ str), (str, count, i, result))
      \<in> measure (\<lambda>(str, count, i, result). nat (sint count - sint i))"
    using a by simp
qed

definition Value_multedBy :: "error + (addr \<times> heap)" where
  "Value_multedBy = Inl (UnsupportedOperation ''Multiplication not supported for this type'')"


definition Number_multedBy :: "double \<Rightarrow> heap \<Rightarrow> addr \<Rightarrow> error + (addr \<times> heap)" where
  "Number_multedBy value h other =
     (if isNumber (cells h other) then
        (case asNumber (cells h other) of
           Inl e \<Rightarrow> Inl e
         | Inr otherValue \<Rightarrow> Inr (make_shared (Number (double_mul value otherValue)) h))
      else if isString (cells h other) then
        (case asString (cells h other) of
           Inl e \<Rightarrow> Inl e
         | Inr str \<Rightarrow>
             (case double_to_int value of
                None \<Rightarrow> Inl (UndefinedBehaviour ''static_cast<int> of a double outside int'')
              | Some count \<Rightarrow> Inr (make_shared (String (repeat_loop str count 0 [])) h)))
      else Value_multedBy)"

definition String_multedBy :: "string \<Rightarrow> heap \<Rightarrow> addr \<Rightarrow> error + (addr \<times> heap)" where
  "String_multedBy value h other =
     (if isNumber (cells h other) then
        (case asNumber (cells h other) of
           Inl e \<Rightarrow> Inl e
         | Inr n \<Rightarrow>
             (case double_to_int n of
                None \<Rightarrow> Inl (UndefinedBehaviour ''static_cast<int> of a double outside int'')
              | Some count \<Rightarrow> Inr (make_shared (String (repeat_loop value count 0 [])) h)))
      else Value_multedBy)"


text \<open>Virtual dispatch on the receiver \<open>this\<close>; List and Function inherit the base method.\<close>

definition multedBy :: "heap \<Rightarrow> addr \<Rightarrow> addr \<Rightarrow> error + (addr \<times> heap)" where
  "multedBy h this other =
     (case cells h this of
        Number value \<Rightarrow> Number_multedBy value h other
      | String value \<Rightarrow> String_multedBy value h other
      | _ \<Rightarrow> Value_multedBy)"


section \<open>The conversion std::stod\<close>

text \<open>
  The library function, as libstdc++ and glibc implement it on x86-64.
  \<^verbatim>\<open>std::stod\<close> hands the text to \<^verbatim>\<open>strtod\<close>: white space is skipped, then the
  longest prefix that is a floating-point literal is converted (a sign; then a
  hexadecimal literal, a decimal literal, an infinity or a NaN), and whatever follows
  the literal is left unread. It throws \<^verbatim>\<open>invalid_argument\<close> when no prefix is a
  literal and \<^verbatim>\<open>out_of_range\<close> when \<^verbatim>\<open>strtod\<close> reports \<^verbatim>\<open>ERANGE\<close>.
\<close>

definition isspace :: "char \<Rightarrow> bool" where
  "isspace c = ((of_char c :: nat) = 32 \<or> (9 \<le> (of_char c :: nat) \<and> (of_char c :: nat) \<le> 13))"

definition isdigit :: "char \<Rightarrow> bool" where
  "isdigit c = (48 \<le> (of_char c :: nat) \<and> (of_char c :: nat) \<le> 57)"

definition isxdigit :: "char \<Rightarrow> bool" where
  "isxdigit c =
     (isdigit c \<or> (65 \<le> (of_char c :: nat) \<and> (of_char c :: nat) \<le> 70)
      \<or> (97 \<le> (of_char c :: nat) \<and> (of_char c :: nat) \<le> 102))"

definition tolower :: "char \<Rightarrow> char" where
  "tolower c =
     (if 65 \<le> (of_char c :: nat) \<and> (of_char c :: nat) \<le> 90 then char_of ((of_char c :: nat) + 32)
      else c)"

definition xdigit_val :: "char \<Rightarrow> nat" where
  "xdigit_val c =
     (if isdigit c then of_char c - 48
      else if 97 \<le> (of_char c :: nat) then of_char c - 87
      else of_char c - 55)"

definition digits_val :: "nat \<Rightarrow> string \<Rightarrow> nat" where
  "digits_val base ds = foldl (\<lambda>n c. base * n + xdigit_val c) 0 ds"

definition scan_sign :: "string \<Rightarrow> bool \<times> string" where
  "scan_sign s =
     (case s of
        [] \<Rightarrow> (False, s)
      | c # r \<Rightarrow> if c = CHR ''-'' then (True, r) else if c = CHR ''+'' then (False, r) else (False, s))"

text \<open>
  Digits with an optional point: the digits before the point, those after it, and the
  rest of the text.
\<close>

definition scan_mantissa :: "(char \<Rightarrow> bool) \<Rightarrow> string \<Rightarrow> string \<times> string \<times> string" where
  "scan_mantissa isd s =
     (let ip = takeWhile isd s; r = dropWhile isd s in
      case r of
        [] \<Rightarrow> (ip, [], r)
      | c # r' \<Rightarrow> if c = CHR ''.'' then (ip, takeWhile isd r', dropWhile isd r') else (ip, [], r))"

text \<open>
  The exponent part after the mantissa: the marker (\<open>e\<close> or \<open>p\<close>, in either case), an
  optional sign and at least one decimal digit. Without a digit there is no exponent.
\<close>

definition scan_exponent :: "char \<Rightarrow> string \<Rightarrow> int" where
  "scan_exponent marker s =
     (case s of
        [] \<Rightarrow> 0
      | c # r \<Rightarrow>
          if tolower c = marker then
            (let (neg, r') = scan_sign r; ds = takeWhile isdigit r' in
             if ds = [] then 0
             else if neg then - int (digits_val 10 ds) else int (digits_val 10 ds))
          else 0)"

definition scale :: "real \<Rightarrow> nat \<Rightarrow> int \<Rightarrow> real" where
  "scale m base e = (if 0 \<le> e then m * real base ^ nat e else m / real base ^ nat (- e))"

definition scan_decimal :: "string \<Rightarrow> real option" where
  "scan_decimal s =
     (let (ip, fp, r) = scan_mantissa isdigit s in
      if ip = [] \<and> fp = [] then None
      else Some (scale (real (digits_val 10 (ip @ fp))) 10
                   (scan_exponent CHR ''e'' r - int (length fp))))"

definition scan_hex :: "string \<Rightarrow> real option" where
  "scan_hex s =
     (case s of
        z # x # r \<Rightarrow>
          if z = CHR ''0'' \<and> tolower x = CHR ''x'' then
            (let (ip, fp, r') = scan_mantissa isxdigit r in
             if ip = [] \<and> fp = [] then None
             else Some (scale (real (digits_val 16 (ip @ fp))) 2
                          (scan_exponent CHR ''p'' r' - 4 * int (length fp))))
          else None
      | _ \<Rightarrow> None)"

datatype strtod_result = NoConversion | ERange | Converted double

text \<open>
  The magnitude \<open>q > 0\<close> rounded to 53 significant bits with no lower bound on the
  exponent: what the conversion would give if there were no subnormal range.
\<close>

definition round_unbounded :: "real \<Rightarrow> real" where
  "round_unbounded q =
     (if q \<le> 0 then 0
      else let e = \<lfloor>log 2 q\<rfloor> - 52
           in of_int (round_half_even (q / 2 powr (of_int e))) * 2 powr (of_int e))"

text \<open>
  The exact magnitude \<open>m\<close> of a literal becomes the nearest double. \<^verbatim>\<open>ERANGE\<close> is
  reported on overflow, when the magnitude rounds beyond the largest double. On
  underflow the C standard leaves \<^verbatim>\<open>ERANGE\<close> to the implementation; glibc (on x86-64)
  reports it when the result is tiny after rounding, that is when \<open>round_unbounded m\<close>
  is still below the smallest normal double \<open>2 ^ -1022\<close>, and is not exact. A
  magnitude just below \<open>2 ^ -1022\<close> that rounds up to it is converted without an
  error.
\<close>

definition convert_magnitude :: "bool \<Rightarrow> real \<Rightarrow> strtod_result" where
  "convert_magnitude neg m =
     (if 2 ^ 1024 - 2 ^ 970 \<le> m then ERange
      else if m \<noteq> 0 \<and> m < 1 / 2 ^ 1022 \<and> round_unbounded m < 1 / 2 ^ 1022
              \<and> round_magnitude m \<noteq> m then ERange
      else Converted (round_to_double neg m))"

definition strtod :: "string \<Rightarrow> strtod_result" where
  "strtod s =
     (let (neg, t) = scan_sign (dropWhile isspace s) in
      case scan_hex t of
        Some m \<Rightarrow> convert_magnitude neg m
      | None \<Rightarrow>
          (case scan_decimal t of
             Some m \<Rightarrow> convert_magnitude neg m
           | None \<Rightarrow>
               if map tolower (take 3 t) = ''inf'' then Converted (Infinity neg)
               else if map tolower (take 3 t) = ''nan'' then Converted NaN
               else NoConversion))"



text \<open>
  What the specification calls a valid numeral: the full text is a decimal number,
  that is an optional sign, digits with an optional point (at least one digit), an
  optional exponent, and nothing else.
\<close>

definition decimal_numeral :: "string \<Rightarrow> bool" where
  "decimal_numeral s =
     (let (neg, t) = scan_sign s; (ip, fp, r) = scan_mantissa isdigit t in
      (ip \<noteq> [] \<or> fp \<noteq> []) \<and>
      (case r of
         [] \<Rightarrow> True
       | c # r1 \<Rightarrow> tolower c = CHR ''e'' \<and> (let (n, r2) = scan_sign r1 in r2 \<noteq> [] \<and> list_all isdigit r2)))"

section \<open>Standard library functions\<close>

definition len :: "heap \<Rightarrow> addr list \<Rightarrow> error + (addr \<times> heap)" where
  "len h args =
     (if args = [] then Inl (ArityOrType ''len() requires at least one argument'')
      else if isList (cells h (args ! 0)) then
        (case asList (cells h (args ! 0)) of
           Inl e \<Rightarrow> Inl e
         | Inr elements \<Rightarrow> Inr (make_shared (Number (int_to_double (List_length elements))) h))
      else if isString (cells h (args ! 0)) then
        (case asString (cells h (args ! 0)) of
           Inl e \<Rightarrow> Inl e
         | Inr s \<Rightarrow> Inr (make_shared (Number (size_to_double (length s))) h))
      else Inl (ArityOrType ''len() requires a list or string argument''))"

text \<open>
  The loop of \<^verbatim>\<open>append\<close> over \<^verbatim>\<open>args[1]\<close>, \<^verbatim>\<open>args[2]\<close>, ...: each is pushed onto
  the object that \<open>list\<close> points to.
\<close>

primrec append_loop :: "addr \<Rightarrow> addr list \<Rightarrow> heap \<Rightarrow> heap" where
  "append_loop list [] h = h"
| "append_loop list (v # vs) h = append_loop list vs (List_append list v h)"

text \<open>
  \<^verbatim>\<open>ListPtr list = args[0]->asList();\<close> makes \<open>list\<close> point to the new object that
  \<^verbatim>\<open>asList\<close> copy-constructs. The function returns that pointer, so the object is
  placed in the heap.
\<close>

definition append_builtin :: "heap \<Rightarrow> addr list \<Rightarrow> error + (addr \<times> heap)" where
  "append_builtin h args =
     (if length args < 2 then Inl (ArityOrType ''append() requires at least two arguments'')
      else if \<not> isList (cells h (args ! 0)) then
        Inl (ArityOrType ''First argument to append() must be a list'')
      else
        (case asList (cells h (args ! 0)) of
           Inl e \<Rightarrow> Inl e
         | Inr elements \<Rightarrow>
             (let (list, h1) = make_shared (List elements) h
              in Inr (list, append_loop list (drop 1 args) h1))))"

text \<open>
  In \<^verbatim>\<open>pop\<close> the copy that \<open>list\<close> points to dies with the call: it is a local value
  here. The heap is returned as it was received.
\<close>

definition pop :: "heap \<Rightarrow> addr list \<Rightarrow> error + (addr \<times> heap)" where
  "pop h args =
     (if args = [] then Inl (ArityOrType ''pop() requires at least one argument'')
      else if \<not> isList (cells h (args ! 0)) then
        Inl (ArityOrType ''First argument to pop() must be a list'')
      else
        (case asList (cells h (args ! 0)) of
           Inl e \<Rightarrow> Inl e
         | Inr list \<Rightarrow>
             if List_length list = 0 then Inl (ArityOrType ''Cannot pop from an empty list'')
             else
               (case (if 1 < length args \<and> isNumber (cells h (args ! 1))
                      then (case asNumber (cells h (args ! 1)) of
                              Inl e \<Rightarrow> Inl e
                            | Inr d \<Rightarrow>
                                (case double_to_int d of
                                   None \<Rightarrow> Inl (UndefinedBehaviour
                                             ''static_cast<int> of a double outside int'')
                                 | Some i \<Rightarrow> Inr i))
                      else Inr (- 1)) of
                  Inl e \<Rightarrow> Inl e
                | Inr index \<Rightarrow>
                    (case getItem list index of
                       Inl e \<Rightarrow> Inl e
                     | Inr result \<Rightarrow> Inr (result, h)))))"


section \<open>Context\<close>

text \<open>
  A \<^verbatim>\<open>std::shared_ptr<Context>\<close> is the address of a context in a store of contexts;
  \<open>parent\<close> is \<open>None\<close> for the null pointer. Each context owns its map
  \<open>variables\<close> from names to value pointers.
\<close>

type_synonym caddr = nat

record Context =
  ctx_name :: string
  parent :: "caddr option"
  variables :: "string \<rightharpoonup> addr"

record cstore =
  contexts :: "caddr \<Rightarrow> Context"
  next_ctx :: caddr

text \<open>The constructor \<^verbatim>\<open>Context(name, parent)\<close>, through \<^verbatim>\<open>std::make_shared\<close>.\<close>

definition new_Context :: "string \<Rightarrow> caddr option \<Rightarrow> cstore \<Rightarrow> caddr \<times> cstore" where
  "new_Context name p cs =
     (next_ctx cs,
      cs\<lparr>contexts := (contexts cs)(next_ctx cs :=
            \<lparr>ctx_name = name, parent = p, variables = Map.empty\<rparr>),
         next_ctx := Suc (next_ctx cs)\<rparr>)"

definition createChild :: "cstore \<Rightarrow> caddr \<Rightarrow> string \<Rightarrow> caddr \<times> cstore" where
  "createChild cs this name = new_Context name (Some this) cs"

definition setVariable :: "cstore \<Rightarrow> caddr \<Rightarrow> string \<Rightarrow> addr \<Rightarrow> cstore" where
  "setVariable cs this name v =
     cs\<lparr>contexts := (contexts cs)(this :=
           (contexts cs this)\<lparr>variables := (variables (contexts cs this))(name \<mapsto> v)\<rparr>)\<rparr>"

text \<open>The message of the exception that \<^verbatim>\<open>getVariable\<close> throws.\<close>

definition not_defined :: "string \<Rightarrow> string" where
  "not_defined name = ''Variable '' @ [CHR 0x27] @ name @ [CHR 0x27] @ '' not defined''"

text \<open>
  Both lookups follow the parent pointers. In a store where these pointers form a
  cycle the recursion does not return, which is the value \<open>None\<close>.
\<close>

partial_function (option) getVariable :: "cstore \<Rightarrow> caddr \<Rightarrow> string \<Rightarrow> (error + addr) option" where
  "getVariable cs this name =
     (case variables (contexts cs this) name of
        Some v \<Rightarrow> Some (Inr v)
      | None \<Rightarrow>
          (case parent (contexts cs this) of
             Some p \<Rightarrow> getVariable cs p name
           | None \<Rightarrow> Some (Inl (UndefinedVariable (not_defined name)))))"

partial_function (option) hasVariable :: "cstore \<Rightarrow> caddr \<Rightarrow> string \<Rightarrow> bool option" where
  "hasVariable cs this name =
     (case variables (contexts cs this) name of
        Some v \<Rightarrow> Some True
      | None \<Rightarrow>
          (case parent (contexts cs this) of
             Some p \<Rightarrow> hasVariable cs p name
           | None \<Rightarrow> Some False))"

text \<open>
  A parent exists before its child is constructed, and no operation changes a parent
  pointer: in every store the program can build, each allocated context has an older
  parent.
\<close>

definition parents_older :: "cstore \<Rightarrow> bool" where
  "parents_older cs =
     (\<forall>c < next_ctx cs. case parent (contexts cs c) of None \<Rightarrow> True | Some p \<Rightarrow> p < c)"

text \<open>The contexts that a lookup from \<open>c\<close> visits: \<open>c\<close> and its ancestors.\<close>

inductive in_chain :: "cstore \<Rightarrow> caddr \<Rightarrow> caddr \<Rightarrow> bool" for cs :: cstore where
  self: "in_chain cs c c"
| up: "parent (contexts cs c) = Some p \<Longrightarrow> in_chain cs p a \<Longrightarrow> in_chain cs c a"

text \<open>The store before any context is constructed.\<close>

definition empty_cstore :: cstore where
  "empty_cstore =
     \<lparr>contexts = (\<lambda>c. \<lparr>ctx_name = [], parent = None, variables = Map.empty\<rparr>), next_ctx = 0\<rparr>"

text \<open>The heap that holds the objects \<open>vs\<close> at the addresses 0, 1, 2, ...\<close>

definition heap_of :: "val list \<Rightarrow> heap" where
  "heap_of vs = \<lparr>cells = (\<lambda>a. if a < length vs then vs ! a else Number (Finite 0)), next_addr = length vs\<rparr>"

section \<open>Index arithmetic of List\<close>

lemma sint_add_size:
  fixes i :: cint
  assumes "sint i < 0" and "n \<le> 2 ^ 31"
  shows "sint (i + word_of_nat n) = sint i + int n"
proof -
  have lo: "- (2 ^ 31) \<le> sint i" using sint_ge [of i] by simp
  have "i + word_of_nat n = word_of_int (sint i + int n)" by simp
  then have "sint (i + word_of_nat n) = (sint i + int n + 2 ^ 31) mod 2 ^ 32 - 2 ^ 31"
    by (simp only: int_word_sint) simp
  also have "\<dots> = sint i + int n"
    using lo assms by (simp add: mod_pos_pos_trivial)
  finally show ?thesis .
qed

lemma unat_nonneg:
  fixes w :: cint
  assumes "0 \<le> sint w"
  shows "unat w = nat (sint w)"
proof -
  have "w = word_of_int (sint w)" by simp
  then have "uint w = uint (word_of_int (sint w) :: cint)" by simp
  also have "\<dots> = sint w mod 2 ^ 32" by (simp only: uint_word_of_int) simp
  also have "\<dots> = sint w" using assms sint_lt [of w] by (simp add: mod_pos_pos_trivial)
  finally show ?thesis by (simp add: unat_eq_nat_uint)
qed

text \<open>
  On a list of at most \<open>2 ^ 31\<close> elements the 32-bit arithmetic of \<open>getItem\<close> and
  \<open>setItem\<close> is the arithmetic of the integers.
\<close>

lemma getItem_int:
  assumes "length es \<le> 2 ^ 31"
  shows "getItem es i =
     (let j = (if sint i < 0 then sint i + int (length es) else sint i) in
      if 0 \<le> j \<and> j < int (length es) then Inr (es ! nat j)
      else Inl (IndexOutOfRange ''List index out of range''))"
proof (cases "sint i < 0")
  case True
  note neg = this
  have s: "sint (i + word_of_nat (length es)) = sint i + int (length es)"
    using sint_add_size [OF True assms] .
  show ?thesis
  proof (cases "0 \<le> sint i + int (length es)")
    case True
    then have u: "unat (i + word_of_nat (length es)) = nat (sint i + int (length es))"
      using unat_nonneg [of "i + word_of_nat (length es)"] s by simp
    show ?thesis using neg True s u by (auto simp: getItem_def Let_def)
  next
    case False
    then show ?thesis using neg s by (auto simp: getItem_def Let_def)
  qed
next
  case False
  then have u: "unat i = nat (sint i)" using unat_nonneg [of i] by simp
  show ?thesis using False u by (auto simp: getItem_def Let_def)
qed

lemma setItem_int:
  assumes "length es \<le> 2 ^ 31"
  shows "setItem es i v =
     (let j = (if sint i < 0 then sint i + int (length es) else sint i) in
      if 0 \<le> j \<and> j < int (length es) then Inr (es[nat j := v])
      else Inl (IndexOutOfRange ''List index out of range''))"
proof (cases "sint i < 0")
  case True
  note neg = this
  have s: "sint (i + word_of_nat (length es)) = sint i + int (length es)"
    using sint_add_size [OF True assms] .
  show ?thesis
  proof (cases "0 \<le> sint i + int (length es)")
    case True
    then have u: "unat (i + word_of_nat (length es)) = nat (sint i + int (length es))"
      using unat_nonneg [of "i + word_of_nat (length es)"] s by simp
    show ?thesis using neg True s u by (auto simp: setItem_def Let_def)
  next
    case False
    then show ?thesis using neg s by (auto simp: setItem_def Let_def)
  qed
next
  case False
  then have u: "unat i = nat (sint i)" using unat_nonneg [of i] by simp
  show ?thesis using False u by (auto simp: setItem_def Let_def)
qed

text \<open>
  Claim C5, as the code has it. For every List of \<open>n \<le> 2 ^ 31\<close> elements and every
  \<^verbatim>\<open>int\<close> index \<open>i\<close>: \<open>getItem\<close> and \<open>setItem\<close> turn a negative \<open>i\<close> into \<open>i + n\<close>;
  when the resulting index lies in \<open>[0, n)\<close> the element there is returned (or
  replaced), otherwise the call fails with IndexOutOfRange.
\<close>

theorem getItem_setItem_index:
  assumes "length es \<le> 2 ^ 31"
  shows "getItem es i =
           (let j = (if sint i < 0 then sint i + int (length es) else sint i) in
            if 0 \<le> j \<and> j < int (length es) then Inr (es ! nat j)
            else Inl (IndexOutOfRange ''List index out of range''))
       \<and> setItem es i v =
           (let j = (if sint i < 0 then sint i + int (length es) else sint i) in
            if 0 \<le> j \<and> j < int (length es) then Inr (es[nat j := v])
            else Inl (IndexOutOfRange ''List index out of range''))"
  using getItem_int [OF assms] setItem_int [OF assms] by simp

text \<open>
  The list of claim C5: three elements, at the addresses 10, 11 and 12. Index \<open>-1\<close>
  is the last element; the indices \<open>3\<close> and \<open>-4\<close> are out of range.
\<close>

theorem getItem_setItem_index_witness:
  "length [10, 11, 12 :: addr] \<le> 2 ^ 31
   \<and> getItem [10, 11, 12] (- 1) = Inr 12
   \<and> setItem [10, 11, 12] (- 1) 7 = Inr [10, 11, 7]
   \<and> getItem [10, 11, 12] 3 = Inl (IndexOutOfRange ''List index out of range'')
   \<and> getItem [10, 11, 12] (- 4) = Inl (IndexOutOfRange ''List index out of range'')"
proof -
  have h: "length [10, 11, 12 :: addr] \<le> 2 ^ 31" by simp
  show ?thesis
    using getItem_setItem_index [OF h, of "- 1" 7] getItem_setItem_index [OF h, of 3 7]
      getItem_setItem_index [OF h, of "- 4" 7]
    by simp
qed

text \<open>
  Claim C5 as stated, for every List, fails on a list of \<open>2 ^ 31 + 1\<close> elements: the
  index \<open>-1\<close> plus the length is \<open>2 ^ 31\<close>, inside \<open>[0, n)\<close>, but as an \<^verbatim>\<open>int\<close> it is
  negative and \<open>getItem\<close> fails.
\<close>

theorem getItem_index_counterexample:
  "getItem (replicate 2147483649 0) (- 1) = Inl (IndexOutOfRange ''List index out of range'')
   \<and> 0 \<le> - 1 + int (length (replicate 2147483649 (0 :: addr)))
   \<and> - 1 + int (length (replicate 2147483649 (0 :: addr))) < int (length (replicate 2147483649 (0 :: addr)))"
  by (simp add: getItem_def)

section \<open>Lookup in a chain of contexts\<close>

lemma parents_olderD:
  "parents_older cs \<Longrightarrow> c < next_ctx cs \<Longrightarrow> parent (contexts cs c) = Some p \<Longrightarrow> p < c"
  unfolding parents_older_def by (auto split: option.splits)

text \<open>The constructor and \<open>setVariable\<close> keep every parent older than its child.\<close>

lemma parents_older_empty: "parents_older empty_cstore"
  by (simp add: parents_older_def empty_cstore_def)

lemma parents_older_new_Context:
  "parents_older cs \<Longrightarrow> (\<forall>p. q = Some p \<longrightarrow> p < next_ctx cs) \<Longrightarrow>
   parents_older (snd (new_Context name q cs))"
  unfolding parents_older_def new_Context_def
  by (auto split: option.splits simp: less_Suc_eq)

lemma parents_older_createChild:
  "parents_older cs \<Longrightarrow> c < next_ctx cs \<Longrightarrow> parents_older (snd (createChild cs c name))"
  unfolding createChild_def by (rule parents_older_new_Context) auto

lemma parents_older_setVariable:
  "parents_older cs \<Longrightarrow> parents_older (setVariable cs c name v)"
  unfolding parents_older_def setVariable_def by (auto split: option.splits)

lemma in_chain_le:
  assumes "parents_older cs"
  shows "in_chain cs c a \<Longrightarrow> c < next_ctx cs \<Longrightarrow> a \<le> c"
proof (induction rule: in_chain.induct)
  case (self c)
  then show ?case by simp
next
  case (up c p a)
  have "p < c" using parents_olderD [OF assms up.prems up.hyps(1)] .
  then show ?case using up by simp
qed

lemma in_chain_unfold:
  "in_chain cs c a \<longleftrightarrow> a = c \<or> (\<exists>p. parent (contexts cs c) = Some p \<and> in_chain cs p a)"
  by (subst in_chain.simps) auto

text \<open>
  Both lookups return: \<open>hasVariable\<close> tells whether some context of the chain binds
  the name, and \<open>getVariable\<close> returns a pointer in that case and throws otherwise.
\<close>

lemma lookup_chain:
  assumes po: "parents_older cs"
  shows "c < next_ctx cs \<Longrightarrow>
    hasVariable cs c name = Some (\<exists>a. in_chain cs c a \<and> variables (contexts cs a) name \<noteq> None)
    \<and> (if (\<exists>a. in_chain cs c a \<and> variables (contexts cs a) name \<noteq> None)
        then (\<exists>v. getVariable cs c name = Some (Inr v))
        else getVariable cs c name = Some (Inl (UndefinedVariable (not_defined name))))"
proof (induction c rule: less_induct)
  case (less c)
  show ?case
  proof (cases "variables (contexts cs c) name")
    case (Some v)
    have "in_chain cs c c" by (rule in_chain.self)
    then have ex: "\<exists>a. in_chain cs c a \<and> variables (contexts cs a) name \<noteq> None"
      using Some by auto
    show ?thesis using Some ex
      by (simp add: hasVariable.simps [of cs c] getVariable.simps [of cs c])
  next
    case None
    note loc = this
    show ?thesis
    proof (cases "parent (contexts cs c)")
      case None
      have "\<not> (\<exists>a. in_chain cs c a \<and> variables (contexts cs a) name \<noteq> None)"
        using loc None by (subst in_chain_unfold) auto
      then show ?thesis using loc None
        by (simp add: hasVariable.simps [of cs c] getVariable.simps [of cs c])
    next
      case (Some p)
      have pc: "p < c" using parents_olderD [OF po less.prems Some] .
      then have pn: "p < next_ctx cs" using less.prems by simp
      have eq: "(\<exists>a. in_chain cs c a \<and> variables (contexts cs a) name \<noteq> None)
          \<longleftrightarrow> (\<exists>a. in_chain cs p a \<and> variables (contexts cs a) name \<noteq> None)"
        using loc Some by (subst in_chain_unfold) auto
      have h: "hasVariable cs c name = hasVariable cs p name"
        using loc Some by (simp add: hasVariable.simps [of cs c])
      have g: "getVariable cs c name = getVariable cs p name"
        using loc Some by (simp add: getVariable.simps [of cs c])
      show ?thesis using less.IH [OF pc pn] unfolding h g eq .
    qed
  qed
qed

lemma setVariable_other:
  "a \<noteq> c \<Longrightarrow> contexts (setVariable cs c name v) a = contexts cs a"
  by (simp add: setVariable_def)

text \<open>A lookup that starts in a context older than \<open>c\<close> never reads \<open>c\<close>.\<close>

lemma lookup_below:
  assumes po: "parents_older cs"
  shows "p < c \<Longrightarrow> p < next_ctx cs \<Longrightarrow>
     getVariable (setVariable cs c name v) p n = getVariable cs p n
     \<and> hasVariable (setVariable cs c name v) p n = hasVariable cs p n"
proof (induction p rule: less_induct)
  case (less p)
  have same: "contexts (setVariable cs c name v) p = contexts cs p"
    using less.prems by (simp add: setVariable_other)
  show ?case
  proof (cases "parent (contexts cs p)")
    case None
    then show ?thesis using same
      by (simp add: getVariable.simps [of _ p] hasVariable.simps [of _ p] split: option.splits)
  next
    case (Some q)
    have qp: "q < p" using parents_olderD [OF po less.prems(2) Some] .
    have ih: "getVariable (setVariable cs c name v) q n = getVariable cs q n
        \<and> hasVariable (setVariable cs c name v) q n = hasVariable cs q n"
      using less.IH [OF qp] qp less.prems by simp
    show ?thesis using same Some ih
      by (simp add: getVariable.simps [of _ p] hasVariable.simps [of _ p] split: option.splits)
  qed
qed

text \<open>
  Claim C8. \<open>setVariable\<close> on a context \<open>c\<close> inserts or overwrites the binding in the
  map of \<open>c\<close> and changes no other context; the lookups that start in a parent (any
  ancestor) of \<open>c\<close> return what they returned before, and the lookup of the name in
  \<open>c\<close> returns the new value.
\<close>

theorem setVariable_local_only:
  assumes "parents_older cs" and "c < next_ctx cs"
  shows "variables (contexts (setVariable cs c name v) c) = (variables (contexts cs c))(name \<mapsto> v)
     \<and> parent (contexts (setVariable cs c name v) c) = parent (contexts cs c)
     \<and> (\<forall>a. a \<noteq> c \<longrightarrow> contexts (setVariable cs c name v) a = contexts cs a)
     \<and> getVariable (setVariable cs c name v) c name = Some (Inr v)
     \<and> (\<forall>p n. in_chain cs c p \<and> p \<noteq> c \<longrightarrow>
           getVariable (setVariable cs c name v) p n = getVariable cs p n
           \<and> hasVariable (setVariable cs c name v) p n = hasVariable cs p n)"
proof -
  have a: "variables (contexts (setVariable cs c name v) c) = (variables (contexts cs c))(name \<mapsto> v)"
    by (simp add: setVariable_def)
  have b: "parent (contexts (setVariable cs c name v) c) = parent (contexts cs c)"
    by (simp add: setVariable_def)
  have d: "getVariable (setVariable cs c name v) c name = Some (Inr v)"
    using a by (simp add: getVariable.simps [of _ c])
  have e: "getVariable (setVariable cs c name v) p n = getVariable cs p n
           \<and> hasVariable (setVariable cs c name v) p n = hasVariable cs p n"
    if "in_chain cs c p" "p \<noteq> c" for p n
  proof -
    have "p \<le> c" using in_chain_le [OF assms(1) that(1) assms(2)] .
    then have "p < c" using that(2) by simp
    then show ?thesis using lookup_below [OF assms(1)] assms(2) by simp
  qed
  show ?thesis using a b d e by (simp add: setVariable_other)
qed

text \<open>
  The example of claim C8: the root context binds \<open>x\<close> to the pointer 10 (a Number 1),
  its child then binds \<open>x\<close> to the pointer 11 (a Number 2). The child finds 11, the
  root still finds 10.
\<close>

theorem setVariable_local_only_witness:
  "parents_older (snd (createChild (setVariable (snd (new_Context ''root'' None empty_cstore))
       0 ''x'' 10) 0 ''child''))
   \<and> getVariable (setVariable (snd (createChild (setVariable
         (snd (new_Context ''root'' None empty_cstore)) 0 ''x'' 10) 0 ''child'')) 1 ''x'' 11)
       1 ''x'' = Some (Inr 11)
   \<and> getVariable (setVariable (snd (createChild (setVariable
         (snd (new_Context ''root'' None empty_cstore)) 0 ''x'' 10) 0 ''child'')) 1 ''x'' 11)
       0 ''x'' = Some (Inr 10)"
proof -
  define cs3 where "cs3 = snd (createChild (setVariable
      (snd (new_Context ''root'' None empty_cstore)) 0 ''x'' 10) 0 ''child'')"
  have po: "parents_older cs3"
    by (simp add: cs3_def parents_older_def createChild_def new_Context_def setVariable_def
        empty_cstore_def less_Suc_eq)
  have lt: "1 < next_ctx cs3"
    by (simp add: cs3_def createChild_def new_Context_def setVariable_def empty_cstore_def)
  have "parent (contexts cs3 1) = Some 0"
    by (simp add: cs3_def createChild_def new_Context_def setVariable_def empty_cstore_def)
  then have "in_chain cs3 1 0"
    using in_chain.self [of cs3 0] by (rule in_chain.up)
  then have ch: "in_chain cs3 1 0 \<and> (0::nat) \<noteq> 1" by simp
  have g0: "getVariable cs3 0 ''x'' = Some (Inr 10)"
    by (simp add: getVariable.simps [of _ 0] cs3_def createChild_def new_Context_def
        setVariable_def empty_cstore_def)
  show ?thesis
    using setVariable_local_only [OF po lt, of "''x''" 11] ch g0 po
    by (simp add: cs3_def [symmetric])
qed

text \<open>
  Claim C9. In a chain of contexts, \<open>getVariable\<close> returns the local binding when
  there is one and the parent's answer otherwise; it fails with UndefinedVariable for
  the name exactly when no context of the chain binds the name. \<open>hasVariable\<close> always
  returns a boolean, and it returns \<open>True\<close> exactly when \<open>getVariable\<close> succeeds.
\<close>

theorem getVariable_iff_hasVariable:
  assumes "parents_older cs" and "c < next_ctx cs"
  shows "(\<exists>b. hasVariable cs c name = Some b)
     \<and> (hasVariable cs c name = Some True
          \<longleftrightarrow> (\<exists>a. in_chain cs c a \<and> variables (contexts cs a) name \<noteq> None))
     \<and> (hasVariable cs c name = Some True \<longleftrightarrow> (\<exists>v. getVariable cs c name = Some (Inr v)))
     \<and> (hasVariable cs c name = Some False
          \<longleftrightarrow> getVariable cs c name = Some (Inl (UndefinedVariable (not_defined name))))
     \<and> (\<forall>v. variables (contexts cs c) name = Some v \<longrightarrow> getVariable cs c name = Some (Inr v))
     \<and> (\<forall>p. variables (contexts cs c) name = None \<and> parent (contexts cs c) = Some p
          \<longrightarrow> getVariable cs c name = getVariable cs p name)"
proof -
  have l: "\<forall>v. variables (contexts cs c) name = Some v \<longrightarrow> getVariable cs c name = Some (Inr v)"
    by (simp add: getVariable.simps [of cs c])
  have r: "\<forall>p. variables (contexts cs c) name = None \<and> parent (contexts cs c) = Some p
          \<longrightarrow> getVariable cs c name = getVariable cs p name"
    by (simp add: getVariable.simps [of cs c])
  show ?thesis
  proof (cases "\<exists>a. in_chain cs c a \<and> variables (contexts cs a) name \<noteq> None")
    case True
    then show ?thesis using lookup_chain [OF assms, of name] l r by auto
  next
    case False
    then show ?thesis using lookup_chain [OF assms, of name] l r by auto
  qed
qed

text \<open>
  On a root context without bindings the lookup of a name fails with
  UndefinedVariable and \<open>hasVariable\<close> is false; after the binding both succeed.
\<close>

theorem getVariable_iff_hasVariable_witness:
  "parents_older (snd (new_Context ''root'' None empty_cstore))
   \<and> 0 < next_ctx (snd (new_Context ''root'' None empty_cstore))
   \<and> hasVariable (snd (new_Context ''root'' None empty_cstore)) 0 ''undefined_name'' = Some False
   \<and> getVariable (snd (new_Context ''root'' None empty_cstore)) 0 ''undefined_name''
       = Some (Inl (UndefinedVariable (not_defined ''undefined_name'')))"
proof -
  define cs1 where "cs1 = snd (new_Context ''root'' None empty_cstore)"
  have po: "parents_older cs1"
    by (simp add: cs1_def parents_older_def new_Context_def empty_cstore_def)
  have lt: "0 < next_ctx cs1"
    by (simp add: cs1_def new_Context_def empty_cstore_def)
  have h: "hasVariable cs1 0 ''undefined_name'' = Some False"
    by (simp add: hasVariable.simps [of _ 0] cs1_def new_Context_def empty_cstore_def)
  show ?thesis
    using getVariable_iff_hasVariable [OF po lt, of "''undefined_name''"] h po lt
    by (simp add: cs1_def [symmetric])
qed

section \<open>Rounding\<close>

text \<open>An integer below \<open>2 ^ 53\<close> is a double: rounding does not change it.\<close>

lemma round_half_even_int: "round_half_even (of_int N) = N"
  by (simp add: round_half_even_def)

lemma round_magnitude_nat:
  assumes "0 < n" and "n < 2 ^ 53"
  shows "round_magnitude (real n) = real n"
proof -
  define l where "l = \<lfloor>log 2 (real n)\<rfloor>"
  have n1: "1 \<le> real n" using assms(1) by simp
  have "0 \<le> log 2 (real n)" using n1 by simp
  then have l0: "0 \<le> l" by (simp add: l_def)
  have lt: "real n < 2 ^ 53"
    using assms(2) by (metis of_nat_less_iff of_nat_numeral of_nat_power)
  have lp: "log 2 ((2 :: real) ^ 53) = real 53" by (rule log_pow_cancel) simp_all
  have "log 2 (real n) < log 2 ((2 :: real) ^ 53)"
    using n1 lt by (simp only: log_less_cancel_iff)
  then have "log 2 (real n) < 53" unfolding lp by simp
  then have l52: "l \<le> 52" unfolding l_def by (simp add: floor_le_iff) 
  define k where "k = nat (52 - l)"
  have e: "max (l - 52) (- 1074) = - int k" using l0 l52 by (simp add: k_def)
  have p: "2 powr (of_int (- int k)) = 1 / (2 :: real) ^ k"
    by (simp add: powr_minus powr_realpow divide_inverse)
  have q: "real n / (1 / 2 ^ k) = of_int (int (n * 2 ^ k))" by simp
  have "round_magnitude (real n)
      = of_int (round_half_even (real n / 2 powr (of_int (- int k)))) * 2 powr (of_int (- int k))"
    using assms(1) e unfolding round_magnitude_def l_def [symmetric] by (simp add: Let_def)
  also have "\<dots> = of_int (round_half_even (of_int (int (n * 2 ^ k)))) * (1 / 2 ^ k)"
    unfolding p q ..
  also have "\<dots> = real n" unfolding round_half_even_int by simp
  finally show ?thesis .
qed

lemma round_to_double_nat:
  assumes "0 < n" and "n < 2 ^ 53"
  shows "round_to_double False (real n) = Finite (real n)"
proof -
  have "real n < 2 ^ 53" using assms(2) by (metis of_nat_less_iff of_nat_numeral of_nat_power)
  then have "real n < 2 ^ 1024" by (rule less_trans) simp
  then show ?thesis using assms round_magnitude_nat [OF assms]
    by (simp add: round_to_double_def)
qed

lemma size_to_double_exact:
  assumes "n < 2 ^ 53"
  shows "size_to_double n = Finite (real n)"
proof (cases "n = 0")
  case True
  then show ?thesis
    by (simp add: size_to_double_def round_to_double_def round_magnitude_def signed_zero_def)
next
  case False
  then show ?thesis using round_to_double_nat [of n] assms by (simp add: size_to_double_def)
qed

















lemma round_half_even_le:
  assumes "t \<le> of_int j"
  shows "round_half_even t \<le> j"
proof (cases "t = of_int j")
  case True
  then show ?thesis by (simp add: round_half_even_int)
next
  case False
  then have "t < of_int j" using assms by simp
  then have "\<lfloor>t\<rfloor> < j" by (simp add: floor_less_iff)
  moreover have "round_half_even t \<le> \<lfloor>t\<rfloor> + 1" by (simp add: round_half_even_def Let_def)
  ultimately show ?thesis by linarith
qed













section \<open>Arithmetic of Number and String\<close>

lemma sint_succ:
  fixes i count :: cint
  assumes "sint i < sint count"
  shows "sint (i + 1) = sint i + 1"
proof -
  have hi: "sint i + 1 < 2 ^ 31" using assms sint_lt [of count] by simp
  have lo: "- (2 ^ 31) \<le> sint i" using sint_ge [of i] by simp
  have "i + 1 = word_of_int (sint i + 1)" by simp
  then have "sint (i + 1) = (sint i + 1 + 2 ^ 31) mod 2 ^ 32 - 2 ^ 31"
    by (simp only: int_word_sint) simp
  also have "\<dots> = sint i + 1"
    using lo hi by (simp add: mod_pos_pos_trivial)
  finally show ?thesis .
qed

lemma repeat_loop_from:
  "sint i \<le> sint count \<Longrightarrow>
   repeat_loop str count i result = result @ concat (replicate (nat (sint count - sint i)) str)"
proof (induction str count i result rule: repeat_loop.induct)
  case (1 str count i result)
  show ?case
  proof (cases "sint i < sint count")
    case True
    then have s: "sint (i + 1) = sint i + 1" by (rule sint_succ)
    have n: "nat (sint count - sint i) = Suc (nat (sint count - (sint i + 1)))"
      using True by simp
    have "repeat_loop str count i result = repeat_loop str count (i + 1) (result @ str)"
      using True by (simp del: repeat_loop.simps add: repeat_loop.simps [of str count i result])
    also have "\<dots> = (result @ str) @ concat (replicate (nat (sint count - sint (i + 1))) str)"
      using "1.IH" [OF True] True s by (simp del: repeat_loop.simps)
    finally show ?thesis using s n by (simp del: repeat_loop.simps)
  next
    case False
    then show ?thesis using "1.prems"
      by (simp del: repeat_loop.simps add: repeat_loop.simps [of str count i result])
  qed
qed

lemma repeat_loop_0:
  "repeat_loop str count 0 [] = concat (replicate (nat (sint count)) str)"
proof (cases "0 \<le> sint count")
  case True
  then show ?thesis using repeat_loop_from [of 0 count str "[]"] by (simp del: repeat_loop.simps)
next
  case False
  then show ?thesis by (simp del: repeat_loop.simps add: repeat_loop.simps [of str count 0 "[]"])
qed

lemma truncation_bounds:
  "(- (2 ^ 31) \<le> truncation r \<and> truncation r < 2 ^ 31) \<longleftrightarrow> (- (2 ^ 31) - 1 < r \<and> r < 2 ^ 31)"
  by (simp add: truncation_def)

lemma nat_truncation: "nat (truncation r) = nat \<lfloor>r\<rfloor>"
  by (simp add: truncation_def)

lemma sint_truncation:
  assumes "- (2 ^ 31) \<le> truncation r" "truncation r < 2 ^ 31"
  shows "sint (word_of_int (truncation r) :: cint) = truncation r"
proof -
  have "sint (word_of_int (truncation r) :: cint) = (truncation r + 2 ^ 31) mod 2 ^ 32 - 2 ^ 31"
    by (simp only: int_word_sint) simp
  also have "\<dots> = truncation r" using assms by (simp add: mod_pos_pos_trivial)
  finally show ?thesis .
qed

lemma double_to_int_finite:
  assumes "is_finite d" "- (2 ^ 31) - 1 < valof d" "valof d < 2 ^ 31"
  shows "\<exists>count. double_to_int d = Some count \<and> sint count = truncation (valof d)"
proof (cases d)
  case (Finite r)
  then have b: "- (2 ^ 31) \<le> truncation r \<and> truncation r < 2 ^ 31"
    using assms truncation_bounds [of r] by simp
  then show ?thesis using Finite sint_truncation [of r] by simp
next
  case NegZero
  then show ?thesis by (simp add: truncation_def)
next
  case (Infinity s)
  then show ?thesis using assms by simp
next
  case NaN
  then show ?thesis using assms by simp
qed











text \<open>
  Claim C7, as the code has it. For a finite Number \<open>n\<close> whose truncation is an
  \<^verbatim>\<open>int\<close> (\<open>-2 ^ 31 - 1 < n < 2 ^ 31\<close>) and a String \<open>s\<close>, both \<open>n.multedBy(s)\<close> and
  \<open>s.multedBy(n)\<close> return a new String: the text of \<open>s\<close> repeated \<open>floor(n)\<close> times,
  which is the truncation of \<open>n\<close> towards zero where that is positive, and the empty
  text for \<open>n \<le> 0\<close>. \<open>s.multedBy\<close> of a value that is not a Number fails with
  UnsupportedOperation.
\<close>

theorem multedBy_repeats:
  assumes "cells h n = Number d" and "cells h s = String text"
    and "is_finite d" and "- (2 ^ 31) - 1 < valof d" and "valof d < 2 ^ 31"
  shows "multedBy h n s = Inr (make_shared (String (concat (replicate (nat \<lfloor>valof d\<rfloor>) text))) h)
       \<and> multedBy h s n = Inr (make_shared (String (concat (replicate (nat \<lfloor>valof d\<rfloor>) text))) h)
       \<and> nat \<lfloor>valof d\<rfloor> = nat (truncation (valof d))
       \<and> (valof d \<le> 0 \<longrightarrow> concat (replicate (nat \<lfloor>valof d\<rfloor>) text) = [])
       \<and> (\<forall>x. \<not> isNumber (cells h x) \<longrightarrow>
             multedBy h s x = Inl (UnsupportedOperation ''Multiplication not supported for this type''))"
proof -
  obtain count where c: "double_to_int d = Some count" "sint count = truncation (valof d)"
    using double_to_int_finite [OF assms(3-5)] by auto
  have r: "repeat_loop text count 0 [] = concat (replicate (nat \<lfloor>valof d\<rfloor>) text)"
    using c(2) by (simp del: repeat_loop.simps add: repeat_loop_0 nat_truncation)
  have 1: "multedBy h n s = Inr (make_shared (String (concat (replicate (nat \<lfloor>valof d\<rfloor>) text))) h)"
    using assms(1,2) c(1) r by (simp del: repeat_loop.simps add: multedBy_def Number_multedBy_def)
  have 2: "multedBy h s n = Inr (make_shared (String (concat (replicate (nat \<lfloor>valof d\<rfloor>) text))) h)"
    using assms(1,2) c(1) r by (simp del: repeat_loop.simps add: multedBy_def String_multedBy_def)
  have 3: "valof d \<le> 0 \<longrightarrow> concat (replicate (nat \<lfloor>valof d\<rfloor>) text) = []"
    by (simp add: floor_le_zero)
  have 4: "\<forall>x. \<not> isNumber (cells h x) \<longrightarrow>
             multedBy h s x = Inl (UnsupportedOperation ''Multiplication not supported for this type'')"
    using assms(2)
    by (simp del: repeat_loop.simps add: multedBy_def String_multedBy_def Value_multedBy_def)
  show ?thesis using 1 2 3 4 by (simp add: nat_truncation)
qed

text \<open>
  \<open>Number(3).multedBy(String("ab"))\<close> and \<open>String("ab").multedBy(Number(3))\<close> are
  \<open>String("ababab")\<close>; \<open>Number(0).multedBy(String("x"))\<close> is the empty String.
\<close>

theorem multedBy_repeats_witness:
  "multedBy (heap_of [Number (Finite 3), String ''ab'', Number (Finite 0), String ''x'']) 0 1
     = Inr (make_shared (String ''ababab'') (heap_of [Number (Finite 3), String ''ab'', Number (Finite 0), String ''x'']))
   \<and> multedBy (heap_of [Number (Finite 3), String ''ab'', Number (Finite 0), String ''x'']) 1 0
     = Inr (make_shared (String ''ababab'') (heap_of [Number (Finite 3), String ''ab'', Number (Finite 0), String ''x'']))
   \<and> multedBy (heap_of [Number (Finite 3), String ''ab'', Number (Finite 0), String ''x'']) 2 3
     = Inr (make_shared (String []) (heap_of [Number (Finite 3), String ''ab'', Number (Finite 0), String ''x'']))"
proof -
  define h where "h = heap_of [Number (Finite 3), String ''ab'', Number (Finite 0), String ''x'']"
  have c0: "cells h 0 = Number (Finite 3)" by (simp add: h_def heap_of_def)
  have c1: "cells h 1 = String ''ab''" by (simp add: h_def heap_of_def)
  have c2: "cells h 2 = Number (Finite 0)" by (simp add: h_def heap_of_def)
  have c3: "cells h 3 = String ''x''" by (simp add: h_def heap_of_def)
  have r3: "replicate (nat 3) ''ab'' = [''ab'', ''ab'', ''ab'']" by (simp add: numeral_3_eq_3)
  show ?thesis
    using multedBy_repeats [OF c0 c1] multedBy_repeats [OF c2 c3] r3
    by (simp add: h_def [symmetric])
qed

text \<open>
  Claim C7 as stated, for every Number, fails at \<open>n = 2 ^ 31\<close>: the claim promises the
  text repeated \<open>2 ^ 31\<close> times, but \<^verbatim>\<open>static_cast<int>\<close> of this double is not an
  \<^verbatim>\<open>int\<close> and the behaviour of both methods is undefined.
\<close>

theorem multedBy_counterexample:
  "multedBy (heap_of [Number (Finite 2147483648), String ''x'']) 0 1
     = Inl (UndefinedBehaviour ''static_cast<int> of a double outside int'')
   \<and> multedBy (heap_of [Number (Finite 2147483648), String ''x'']) 1 0
     = Inl (UndefinedBehaviour ''static_cast<int> of a double outside int'')"
  by (simp del: repeat_loop.simps
      add: multedBy_def Number_multedBy_def String_multedBy_def heap_of_def truncation_def)

section \<open>The builtin pop\<close>

lemma List_length_zero:
  assumes "length es \<le> 2 ^ 31"
  shows "List_length es = 0 \<longleftrightarrow> es = []"
proof
  assume "List_length es = 0"
  then have "unat (word_of_nat (length es) :: cint) = 0" by (simp add: List_length_def)
  then have "length es mod 2 ^ 32 = 0" by (simp add: unat_of_nat)
  then show "es = []" using assms by simp
next
  assume "es = []"
  then show "List_length es = 0" by (simp add: List_length_def)
qed

lemma List_length_int:
  assumes "length es < 2 ^ 31"
  shows "sint (List_length es) = int (length es)"
proof -
  have "sint (word_of_int (int (length es)) :: cint) = (int (length es) + 2 ^ 31) mod 2 ^ 32 - 2 ^ 31"
    by (simp only: int_word_sint) simp
  also have "\<dots> = int (length es)" using assms by (simp add: mod_pos_pos_trivial)
  finally show ?thesis by (simp add: List_length_def)
qed

lemma getItem_last:
  assumes "es \<noteq> []" and "length es \<le> 2 ^ 31"
  shows "getItem es (- 1) = Inr (last es)"
proof -
  have "0 < length es" using assms(1) by simp
  then have n: "nat (int (length es) - 1) = length es - 1" by simp
  show ?thesis
    using getItem_int [OF assms(2), of "- 1"] assms(1) n
    by (simp add: Let_def last_conv_nth)
qed

lemma pop_default:
  assumes "cells h L = List es" and "es \<noteq> []" and "length es \<le> 2 ^ 31"
  shows "pop h [L] = Inr (last es, h)"
  using assms List_length_zero [OF assms(3)] getItem_last [OF assms(2,3)]
  by (simp add: pop_def)

lemma pop_frame: "pop h args = Inr (r, h') \<Longrightarrow> h' = h"
  by (auto simp: pop_def split: if_splits sum.splits option.splits)

lemma pop_second_ignored:
  assumes "\<not> isNumber (cells h x)"
  shows "pop h (L # x # rest) = pop h [L]"
  using assms by (simp add: pop_def)

text \<open>
  Claim C3, as the code has it. For a List \<open>L\<close> of at least one and at most \<open>2 ^ 31\<close>
  elements, \<open>pop\<close> called with \<open>[L]\<close> returns the last element; called with \<open>L\<close> and a
  Number whose truncation is the \<^verbatim>\<open>int\<close> \<open>i\<close>, it returns what \<open>getItem(i)\<close> returns.
  Whenever \<open>pop\<close> returns, the heap is the one it received: the element is not
  removed, and \<open>L\<close> has the length and the elements it had. \<open>pop\<close> fails without
  arguments, when the first argument is not a List, and when the List is empty.
\<close>

theorem pop_keeps_list:
  assumes "cells h L = List es" and "es \<noteq> []" and "length es \<le> 2 ^ 31"
  shows "pop h [L] = Inr (last es, h)
     \<and> (\<forall>N d i rest. cells h N = Number d \<and> double_to_int d = Some i \<longrightarrow>
           pop h (L # N # rest) = (case getItem es i of Inl e \<Rightarrow> Inl e | Inr r \<Rightarrow> Inr (r, h)))
     \<and> (\<forall>args r h'. pop h args = Inr (r, h') \<longrightarrow> h' = h)
     \<and> pop h [] = Inl (ArityOrType ''pop() requires at least one argument'')
     \<and> (\<forall>a rest. \<not> isList (cells h a) \<longrightarrow>
           pop h (a # rest) = Inl (ArityOrType ''First argument to pop() must be a list''))
     \<and> (\<forall>a rest. cells h a = List [] \<longrightarrow>
           pop h (a # rest) = Inl (ArityOrType ''Cannot pop from an empty list''))"
proof -
  have 1: "pop h [L] = Inr (last es, h)" using assms by (rule pop_default)
  have 2: "\<forall>N d i rest. cells h N = Number d \<and> double_to_int d = Some i \<longrightarrow>
           pop h (L # N # rest) = (case getItem es i of Inl e \<Rightarrow> Inl e | Inr r \<Rightarrow> Inr (r, h))"
    using assms List_length_zero [OF assms(3)] by (simp add: pop_def)
  have 3: "\<forall>args r h'. pop h args = Inr (r, h') \<longrightarrow> h' = h"
    using pop_frame by blast
  have 4: "pop h [] = Inl (ArityOrType ''pop() requires at least one argument'')"
    by (simp add: pop_def)
  have 5: "\<forall>a rest. \<not> isList (cells h a) \<longrightarrow>
           pop h (a # rest) = Inl (ArityOrType ''First argument to pop() must be a list'')"
    by (simp add: pop_def)
  have 6: "\<forall>a rest. cells h a = List [] \<longrightarrow>
           pop h (a # rest) = Inl (ArityOrType ''Cannot pop from an empty list'')"
    by (simp add: pop_def List_length_def)
  show ?thesis using 1 2 3 4 5 6 by blast
qed

theorem pop_keeps_list_witness:
  "pop (heap_of [List [1, 2, 3], Number (Finite 1), Number (Finite 2), Number (Finite 3), Number NegZero, List []]) [0]
     = Inr (3, heap_of [List [1, 2, 3], Number (Finite 1), Number (Finite 2), Number (Finite 3), Number NegZero, List []])
   \<and> pop (heap_of [List [1, 2, 3], Number (Finite 1), Number (Finite 2), Number (Finite 3), Number NegZero, List []]) [0, 4]
     = Inr (1, heap_of [List [1, 2, 3], Number (Finite 1), Number (Finite 2), Number (Finite 3), Number NegZero, List []])
   \<and> pop (heap_of [List [1, 2, 3], Number (Finite 1), Number (Finite 2), Number (Finite 3), Number NegZero, List []]) [5]
     = Inl (ArityOrType ''Cannot pop from an empty list'')"
proof -
  define h where "h = heap_of [List [1, 2, 3], Number (Finite 1), Number (Finite 2), Number (Finite 3), Number NegZero, List []]"
  have c0: "cells h 0 = List [1, 2, 3]" by (simp add: h_def heap_of_def)
  have c4: "cells h 4 = Number NegZero \<and> double_to_int NegZero = Some 0" by (simp add: h_def heap_of_def)
  have c5: "cells h 5 = List []" by (simp add: h_def heap_of_def)
  have ne: "[1, 2, 3 :: addr] \<noteq> []" by simp
  have le: "length [1, 2, 3 :: addr] \<le> 2 ^ 31" by simp
  have g: "getItem [1, 2, 3] 0 = Inr 1" by (simp add: getItem_def)
  note t = pop_keeps_list [OF c0 ne le]
  have a: "pop h [0] = Inr (3, h)" using t by simp
  have "pop h [0, 4] = (case getItem [1, 2, 3] 0 of Inl e \<Rightarrow> Inl e | Inr r \<Rightarrow> Inr (r, h))"
    using t c4 by blast
  then have b: "pop h [0, 4] = Inr (1, h)" using g by simp
  have c: "pop h [5] = Inl (ArityOrType ''Cannot pop from an empty list'')"
    using t c5 by blast
  show ?thesis using a b c unfolding h_def by blast
qed

text \<open>
  Claim C3 as stated, for every non-empty List, fails on a list of \<open>2 ^ 32\<close> elements:
  \<^verbatim>\<open>length()\<close> casts the size to \<^verbatim>\<open>int\<close>, which is 0, and \<open>pop\<close> reports an empty
  list.
\<close>

theorem pop_counterexample:
  "pop (heap_of [Number (Finite 1), List (replicate 4294967296 0)]) [1]
     = Inl (ArityOrType ''Cannot pop from an empty list'')
   \<and> replicate 4294967296 (0 :: addr) \<noteq> []"
  by (simp add: pop_def heap_of_def List_length_def)

text \<open>
  Claim C10, as the code has it. When the second argument of \<open>pop\<close> is not a Number, \<open>pop\<close> does what it
  does with the first argument alone: the index is the default \<open>-1\<close>. With a
  non-empty List (of at most \<open>2 ^ 31\<close> elements, as above) it does not fail and
  returns the last element.
\<close>

theorem pop_ignores_non_Number:
  assumes "\<not> isNumber (cells h x)"
  shows "pop h (L # x # rest) = pop h [L]
     \<and> (\<forall>es. cells h L = List es \<and> es \<noteq> [] \<and> length es \<le> 2 ^ 31 \<longrightarrow>
           pop h (L # x # rest) = Inr (last es, h))"
  using pop_second_ignored [OF assms] pop_default by simp

theorem pop_ignores_non_Number_witness:
  "\<not> isNumber (cells (heap_of [List [1, 2, 3], Number (Finite 1), Number (Finite 2), Number (Finite 3), String ''x'']) 4)
   \<and> pop (heap_of [List [1, 2, 3], Number (Finite 1), Number (Finite 2), Number (Finite 3), String ''x'']) [0, 4]
     = Inr (3, heap_of [List [1, 2, 3], Number (Finite 1), Number (Finite 2), Number (Finite 3), String ''x''])
   \<and> pop (heap_of [List [1, 2, 3], Number (Finite 1), Number (Finite 2), Number (Finite 3), String ''x'']) [0, 0]
     = Inr (3, heap_of [List [1, 2, 3], Number (Finite 1), Number (Finite 2), Number (Finite 3), String ''x''])"
proof -
  define h where "h = heap_of [List [1, 2, 3], Number (Finite 1), Number (Finite 2), Number (Finite 3), String ''x'']"
  have c0: "cells h 0 = List [1, 2, 3]" by (simp add: h_def heap_of_def)
  have c4: "\<not> isNumber (cells h 4)" by (simp add: h_def heap_of_def)
  have c00: "\<not> isNumber (cells h 0)" by (simp add: h_def heap_of_def)
  have ne: "[1, 2, 3 :: addr] \<noteq> [] \<and> length [1, 2, 3 :: addr] \<le> 2 ^ 31" by simp
  have a: "pop h [0, 4] = Inr (3, h)"
    using pop_ignores_non_Number [OF c4, of 0 "[]"] c0 ne by fastforce
  have b: "pop h [0, 0] = Inr (3, h)"
    using pop_ignores_non_Number [OF c00, of 0 "[]"] c0 ne by fastforce
  show ?thesis using a b c4 unfolding h_def by blast
qed

text \<open>
  Claim C10 as stated, for every List, fails on a list of \<open>2 ^ 31 + 1\<close> elements: the
  second argument is a String and is ignored, but the default index \<open>-1\<close> plus the
  size is not an \<^verbatim>\<open>int\<close>, it wraps to a negative index, and \<open>pop\<close> fails with
  IndexOutOfRange.
\<close>

theorem pop_non_Number_counterexample:
  "pop (heap_of [String ''x'', List (replicate 2147483649 0)]) [1, 0]
     = Inl (IndexOutOfRange ''List index out of range'')
   \<and> cells (heap_of [String ''x'', List (replicate 2147483649 0)]) 1 = List (replicate 2147483649 0)
   \<and> replicate 2147483649 (0 :: addr) \<noteq> []
   \<and> \<not> isNumber (cells (heap_of [String ''x'', List (replicate 2147483649 0)]) 0)"
  by (simp add: pop_def heap_of_def List_length_def getItem_def)

section \<open>The builtin len\<close>

lemma int_to_double_length:
  assumes "length es < 2 ^ 31"
  shows "int_to_double (List_length es) = Finite (real (length es))"
  using List_length_int [OF assms] by (simp add: int_to_double_def)

lemma len_success:
  "(\<exists>r. len h args = Inr r) \<longleftrightarrow>
     args \<noteq> [] \<and> (isList (cells h (args ! 0)) \<or> isString (cells h (args ! 0)))"
  by (cases "cells h (args ! 0)") (simp_all add: len_def)

lemma len_failure:
  "(\<forall>r. len h args \<noteq> Inr r) \<Longrightarrow> \<exists>m. len h args = Inl (ArityOrType m)"
  by (cases "cells h (args ! 0)") (auto simp: len_def make_shared_def split: if_splits)

text \<open>
  Claim C4, as the code has it. \<open>len\<close> succeeds exactly when it is called with at
  least one argument and the first one is a List or a String; the other arguments are
  not looked at. It returns a new Number: the element count of the List (of fewer
  than \<open>2 ^ 31\<close> elements) or the character count of the String (of fewer than
  \<open>2 ^ 53\<close> characters). In every other case it fails with ArityOrType.
\<close>

theorem len_first_argument:
  "((\<exists>r. len h args = Inr r) \<longleftrightarrow>
      args \<noteq> [] \<and> (isList (cells h (args ! 0)) \<or> isString (cells h (args ! 0))))
   \<and> ((\<forall>r. len h args \<noteq> Inr r) \<longrightarrow> (\<exists>m. len h args = Inl (ArityOrType m)))
   \<and> (\<forall>es. args \<noteq> [] \<and> cells h (args ! 0) = List es \<and> length es < 2 ^ 31 \<longrightarrow>
         len h args = Inr (make_shared (Number (Finite (real (length es)))) h))
   \<and> (\<forall>s. args \<noteq> [] \<and> cells h (args ! 0) = String s \<and> length s < 2 ^ 53 \<longrightarrow>
         len h args = Inr (make_shared (Number (Finite (real (length s)))) h))"
proof -
  have 3: "\<forall>es. args \<noteq> [] \<and> cells h (args ! 0) = List es \<and> length es < 2 ^ 31 \<longrightarrow>
         len h args = Inr (make_shared (Number (Finite (real (length es)))) h)"
    by (simp add: len_def int_to_double_length)
  have 4: "\<forall>s. args \<noteq> [] \<and> cells h (args ! 0) = String s \<and> length s < 2 ^ 53 \<longrightarrow>
         len h args = Inr (make_shared (Number (Finite (real (length s)))) h)"
    by (simp add: len_def size_to_double_exact)
  show ?thesis using len_success [of h args] len_failure [of h args] 3 4 by blast
qed

text \<open>
  \<open>len(String("hello"))\<close> is 5, \<open>len(List([]))\<close> is 0, and \<open>len(Number(1))\<close> and
  \<open>len()\<close> fail with ArityOrType.
\<close>

theorem len_first_argument_witness:
  "len (heap_of [String ''hello'', List [], Number (Finite 1)]) [0]
     = Inr (make_shared (Number (Finite 5)) (heap_of [String ''hello'', List [], Number (Finite 1)]))
   \<and> len (heap_of [String ''hello'', List [], Number (Finite 1)]) [1]
     = Inr (make_shared (Number (Finite 0)) (heap_of [String ''hello'', List [], Number (Finite 1)]))
   \<and> (\<exists>m. len (heap_of [String ''hello'', List [], Number (Finite 1)]) [2] = Inl (ArityOrType m))
   \<and> (\<exists>m. len (heap_of [String ''hello'', List [], Number (Finite 1)]) [] = Inl (ArityOrType m))"
proof -
  define h where "h = heap_of [String ''hello'', List [], Number (Finite 1)]"
  have c0: "[0 :: addr] \<noteq> [] \<and> cells h ([0] ! 0) = String ''hello'' \<and> length ''hello'' < 2 ^ 53"
    by (simp add: h_def heap_of_def)
  have c1: "[1 :: addr] \<noteq> [] \<and> cells h ([1] ! 0) = List [] \<and> length ([] :: addr list) < 2 ^ 31"
    by (simp add: h_def heap_of_def)
  have c2: "\<not> ([2 :: addr] \<noteq> [] \<and> (isList (cells h ([2] ! 0)) \<or> isString (cells h ([2] ! 0))))"
    by (simp add: h_def heap_of_def)
  have a: "len h [0] = Inr (make_shared (Number (Finite (real (length ''hello'')))) h)"
    using len_first_argument [of h "[0]"] c0 by blast
  have b: "len h [1] = Inr (make_shared (Number (Finite (real (length ([] :: addr list))))) h)"
    using len_first_argument [of h "[1]"] c1 by blast
  have c: "\<exists>m. len h [2] = Inl (ArityOrType m)"
    using len_first_argument [of h "[2]"] c2 by blast
  have d: "\<exists>m. len h [] = Inl (ArityOrType m)"
    using len_first_argument [of h "[]"] by blast
  have "len h [0] = Inr (make_shared (Number (Finite 5)) h)
      \<and> len h [1] = Inr (make_shared (Number (Finite 0)) h)
      \<and> (\<exists>m. len h [2] = Inl (ArityOrType m)) \<and> (\<exists>m. len h [] = Inl (ArityOrType m))"
    using a b c d by simp
  then show ?thesis unfolding h_def .
qed

text \<open>
  Claim C4 as stated, with exactly one argument, fails for a call with two
  arguments: \<open>len(String("hello"), Number(1))\<close> returns 5.
\<close>

theorem len_counterexample:
  "len (heap_of [String ''hello'', Number (Finite 1)]) [0, 1]
     = Inr (make_shared (Number (Finite 5)) (heap_of [String ''hello'', Number (Finite 1)]))
   \<and> length [0, 1 :: addr] = 2"
  by (simp add: len_def heap_of_def size_to_double_exact)

section \<open>The builtin append\<close>

lemma append_loop_result:
  "cells h p = List es \<Longrightarrow>
   append_loop p vs h = h\<lparr>cells := (cells h)(p := List (es @ vs))\<rparr>"
proof (induction vs arbitrary: h es)
  case Nil
  then show ?case by (simp add: fun_upd_idem)
next
  case (Cons v vs)
  define h1 where "h1 = List_append p v h"
  have h1: "h1 = h\<lparr>cells := (cells h)(p := List (es @ [v]))\<rparr>"
    using Cons.prems by (simp add: h1_def List_append_def)
  then have c1: "cells h1 = (cells h)(p := List (es @ [v]))" by simp
  then have "cells h1 p = List (es @ [v])" by simp
  then have "append_loop p vs h1 = h1\<lparr>cells := (cells h1)(p := List ((es @ [v]) @ vs))\<rparr>"
    by (rule Cons.IH)
  also have "\<dots> = h\<lparr>cells := (cells h)(p := List (es @ v # vs))\<rparr>"
    unfolding c1 by (simp add: h1)
  finally show ?case unfolding h1_def by (simp only: append_loop.simps)
qed

lemma append_builtin_result:
  assumes "2 \<le> length args" and "cells h (args ! 0) = List es"
  shows "append_builtin h args =
     Inr (next_addr h,
          h\<lparr>cells := (cells h)(next_addr h := List (es @ drop 1 args)),
            next_addr := Suc (next_addr h)\<rparr>)"
proof -
  have "cells (snd (make_shared (List es) h)) (next_addr h) = List es"
    by (simp add: make_shared_def)
  then have "append_loop (next_addr h) (drop 1 args) (snd (make_shared (List es) h))
     = (snd (make_shared (List es) h))\<lparr>cells := (cells (snd (make_shared (List es) h)))
          (next_addr h := List (es @ drop 1 args))\<rparr>"
    by (rule append_loop_result)
  then show ?thesis using assms
    by (simp add: append_builtin_def make_shared_def)
qed

text \<open>
  What \<open>append\<close> does with a List \<open>L\<close> as its first argument: the values are
  appended to a copy of \<open>L\<close> at a new address, which is returned; \<open>L\<close> itself and every
  other object are as they were.
\<close>

lemma append_builtin_copies:
  assumes "2 \<le> length args" and "cells h (args ! 0) = List es" and "args ! 0 < next_addr h"
  shows "\<exists>h'. append_builtin h args = Inr (next_addr h, h')
       \<and> next_addr h \<noteq> args ! 0
       \<and> cells h' (next_addr h) = List (es @ drop 1 args)
       \<and> (\<forall>a. a \<noteq> next_addr h \<longrightarrow> cells h' a = cells h a)
       \<and> cells h' (args ! 0) = List es"
  using assms append_builtin_result [OF assms(1,2)] by auto

text \<open>
  Claim C1 at \<open>append(L, Number(1), Number(2))\<close> with an empty List \<open>L\<close> at address 0:
  the result is a new List at address 3 with the two elements, and \<open>L\<close> is still
  empty. The claim says that \<open>L\<close> itself receives the elements and is returned.
\<close>

theorem append_builtin_at_empty_list:
  "(case append_builtin (heap_of [List [], Number (Finite 1), Number (Finite 2)]) [0, 1, 2] of
      Inl e \<Rightarrow> False
    | Inr (r, h') \<Rightarrow> r = 3 \<and> cells h' 3 = List [1, 2] \<and> cells h' 0 = List [])
   \<and> cells (heap_of [List [], Number (Finite 1), Number (Finite 2)]) 0 = List []"
  by (simp add: append_builtin_result heap_of_def)

section \<open>The builtin num\<close>

lemmas scan_defs = strtod_def scan_sign_def scan_hex_def scan_decimal_def scan_mantissa_def
      scan_exponent_def isspace_def isdigit_def isxdigit_def tolower_def digits_val_def xdigit_val_def scale_def




lemma convert_magnitude_converts: "convert_magnitude neg m \<noteq> NoConversion"
  by (simp add: convert_magnitude_def)

text \<open>
  A text a little below the smallest normal double \<open>2 ^ - 1022\<close>: rounded to 53 bits
  the value is \<open>2 ^ - 1022\<close>, so the result is not tiny and no \<^verbatim>\<open>ERANGE\<close> is reported.
\<close>

lemma strtod_below_min_normal:
  "strtod ''2.22507385850720138e-308'' = Converted (Finite (1 / 2 ^ 1022))"
proof -
  define m :: real where "m = 222507385850720138 / 10 ^ 325"
  have s: "strtod ''2.22507385850720138e-308'' = convert_magnitude False m"
    by (simp add: scan_defs m_def)
  have m0: "0 < m" by (simp add: m_def)
  have lo: "2 powr (of_int (- 1023)) \<le> m"
    using powr_int [of "2 :: real" "- 1023"] by (simp add: m_def)
  have hi: "m < 2 powr (of_int (- 1023 + 1))"
    using powr_int [of "2 :: real" "- 1022"] by (simp add: m_def)
  have fl: "\<lfloor>log 2 m\<rfloor> = - 1023"
    using floor_log_eq_powr_iff [of m 2 "- 1023"] m0 lo hi by simp
  have p5: "(2 :: real) powr (of_int (- 1075)) = 1 / 2 ^ 1075"
    using powr_int [of "2 :: real" "- 1075"] by simp
  have p4: "(2 :: real) powr (of_int (- 1074)) = 1 / 2 ^ 1074"
    using powr_int [of "2 :: real" "- 1074"] by simp
  have r5: "round_half_even (m / (1 / 2 ^ 1075)) = 2 ^ 53"
    by (simp add: round_half_even_def Let_def m_def)
  have r4: "round_half_even (m / (1 / 2 ^ 1074)) = 2 ^ 52"
    by (simp add: round_half_even_def Let_def m_def)
  have "round_unbounded m = of_int (round_half_even (m / 2 powr (of_int (- 1075)))) * 2 powr (of_int (- 1075))"
    using m0 unfolding round_unbounded_def fl Let_def by simp
  then have u: "round_unbounded m = 1 / 2 ^ 1022" unfolding p5 r5 by simp
  have "round_magnitude m = of_int (round_half_even (m / 2 powr (of_int (- 1074)))) * 2 powr (of_int (- 1074))"
    using m0 unfolding round_magnitude_def fl Let_def by simp
  then have r: "round_magnitude m = 1 / 2 ^ 1022" unfolding p4 r4 by simp
  have "m < 2 ^ 1024 - 2 ^ 970" by (simp add: m_def)
  then have "convert_magnitude False m = Converted (round_to_double False m)"
    by (simp add: convert_magnitude_def u)
  also have "\<dots> = Converted (Finite (1 / 2 ^ 1022))"
    by (simp add: round_to_double_def r)
  finally show ?thesis using s by simp
qed

text \<open>
  A text in the subnormal range whose value is not a double stays tiny:
  \<^verbatim>\<open>ERANGE\<close>, and \<^verbatim>\<open>std::stod\<close> throws \<^verbatim>\<open>out_of_range\<close>.
\<close>

lemma strtod_tiny: "strtod ''1e-320'' = ERange"
proof -
  define m :: real where "m = 1 / 10 ^ 320"
  have s: "strtod ''1e-320'' = convert_magnitude False m"
    by (simp add: scan_defs m_def)
  have m0: "0 < m" by (simp add: m_def)
  have lo: "2 powr (of_int (- 1064)) \<le> m"
    using powr_int [of "2 :: real" "- 1064"] by (simp add: m_def)
  have hi: "m < 2 powr (of_int (- 1064 + 1))"
    using powr_int [of "2 :: real" "- 1063"] by (simp add: m_def)
  have fl: "\<lfloor>log 2 m\<rfloor> = - 1064"
    using floor_log_eq_powr_iff [of m 2 "- 1064"] m0 lo hi by simp
  have p6: "(2 :: real) powr (of_int (- 1116)) = 1 / 2 ^ 1116"
    using powr_int [of "2 :: real" "- 1116"] by simp
  have p4: "(2 :: real) powr (of_int (- 1074)) = 1 / 2 ^ 1074"
    using powr_int [of "2 :: real" "- 1074"] by simp
  have r6: "round_half_even (m / (1 / 2 ^ 1116)) \<le> 2 ^ 53"
    by (rule round_half_even_le) (simp add: m_def)
  have r4: "round_half_even (m / (1 / 2 ^ 1074)) = 2024"
    by (simp add: round_half_even_def Let_def m_def)
  have "round_unbounded m = of_int (round_half_even (m / 2 powr (of_int (- 1116)))) * 2 powr (of_int (- 1116))"
    using m0 unfolding round_unbounded_def fl Let_def by simp
  also have "\<dots> \<le> of_int (2 ^ 53) * (1 / 2 ^ 1116)"
    unfolding p6 using r6 by (intro mult_right_mono) simp_all
  finally have u: "round_unbounded m < 1 / 2 ^ 1022" by simp
  have "round_magnitude m = of_int (round_half_even (m / 2 powr (of_int (- 1074)))) * 2 powr (of_int (- 1074))"
    using m0 unfolding round_magnitude_def fl Let_def by simp
  then have r: "round_magnitude m = 2024 / 2 ^ 1074" unfolding p4 r4 by simp
  have "round_magnitude m \<noteq> m" unfolding r by (simp add: m_def)
  moreover have "m < 1 / 2 ^ 1022" by (simp add: m_def)
  moreover have "m < 2 ^ 1024 - 2 ^ 970" by (simp add: m_def)
  ultimately have "convert_magnitude False m = ERange"
    using u m0 by (simp add: convert_magnitude_def)
  then show ?thesis using s by simp
qed

text \<open>
  A text that is a decimal numeral as a whole is converted from the value of the
  whole text.
\<close>

lemma decimal_numeral_no_space:
  assumes "decimal_numeral s"
  shows "dropWhile isspace s = s"
proof (cases s)
  case Nil
  then show ?thesis by simp
next
  case (Cons c r)
  have "\<not> isspace c"
  proof
    assume sp: "isspace c"
    then have d: "\<not> isdigit c" by (auto simp: isspace_def isdigit_def)
    have "(of_char CHR ''-'' :: nat) = 45 \<and> (of_char CHR ''+'' :: nat) = 43 \<and> (of_char CHR ''.'' :: nat) = 46" by simp
    then have ne: "c \<noteq> CHR ''-'' \<and> c \<noteq> CHR ''+'' \<and> c \<noteq> CHR ''.''"
      using sp by (auto simp: isspace_def)
    have "\<not> decimal_numeral s"
      using Cons d ne by (simp add: decimal_numeral_def scan_sign_def scan_mantissa_def)
    then show False using assms by simp
  qed
  then show ?thesis using Cons by simp
qed

lemma decimal_numeral_converted:
  assumes "decimal_numeral s"
  shows "strtod s \<noteq> NoConversion"
proof -
  obtain neg t where st: "scan_sign s = (neg, t)" by (cases "scan_sign s")
  obtain ip fp r where sm: "scan_mantissa isdigit t = (ip, fp, r)" by (cases "scan_mantissa isdigit t")
  have ne: "ip \<noteq> [] \<or> fp \<noteq> []" using assms st sm by (simp add: decimal_numeral_def)
  then have "scan_decimal t \<noteq> None" using sm by (auto simp: scan_decimal_def)
  then obtain m where m: "scan_decimal t = Some m" by auto
  show ?thesis
    using decimal_numeral_no_space [OF assms] st m convert_magnitude_converts
    by (simp add: strtod_def split: option.splits)
qed

lemma decimal_numeral_not_hex:
  assumes "decimal_numeral s" and "scan_sign s = (neg, t)"
  shows "scan_hex t = None"
proof (cases t)
  case Nil
  then show ?thesis by (simp add: scan_hex_def)
next
  case (Cons z t1)
  note t = this
  show ?thesis
  proof (cases t1)
    case Nil
    then show ?thesis using t by (simp add: scan_hex_def)
  next
    case (Cons x r)
    show ?thesis
    proof (cases "z = CHR ''0'' \<and> tolower x = CHR ''x''")
      case False
      then show ?thesis using t Cons by (auto simp: scan_hex_def)
    next
      case True
      then have z: "isdigit z" by (simp add: isdigit_def)
      have nd: "\<not> isdigit x"
      proof
        assume d: "isdigit x"
        then have "tolower x = x" by (simp add: tolower_def isdigit_def)
        then have "x = CHR ''x''" using True by simp
        then show False using d by (simp add: isdigit_def)
      qed
      have np: "x \<noteq> CHR ''.''"
      proof
        assume "x = CHR ''.''"
        then have "tolower x = CHR ''.''" by (simp add: tolower_def)
        then show False using True by simp
      qed
      have ne: "tolower x \<noteq> CHR ''e''" using True by simp
      have "scan_mantissa isdigit t = ([z], [], x # r)"
        using t Cons z nd np by (simp add: scan_mantissa_def)
      then have "\<not> decimal_numeral s"
        using assms(2) ne by (simp add: decimal_numeral_def)
      then show ?thesis using assms(1) by simp
    qed
  qed
qed

lemma decimal_numeral_value:
  assumes "decimal_numeral s"
  shows "\<exists>neg t m. scan_sign s = (neg, t) \<and> scan_decimal t = Some m
           \<and> strtod s = convert_magnitude neg m"
proof -
  obtain neg t where st: "scan_sign s = (neg, t)" by (cases "scan_sign s")
  obtain ip fp r where sm: "scan_mantissa isdigit t = (ip, fp, r)" by (cases "scan_mantissa isdigit t")
  have ne: "ip \<noteq> [] \<or> fp \<noteq> []" using assms st sm by (simp add: decimal_numeral_def)
  then have "scan_decimal t \<noteq> None" using sm by (auto simp: scan_decimal_def)
  then obtain m where m: "scan_decimal t = Some m" by auto
  have "strtod s = convert_magnitude neg m"
    using decimal_numeral_no_space [OF assms] st m decimal_numeral_not_hex [OF assms st]
    by (simp add: strtod_def)
  then show ?thesis using st m by blast
qed




end
